theory Spec2Isabelle
  imports Complex_Main "HOL-Library.Sublist"
begin

section \<open>Python strings\<close>

text \<open>
  The source works on Python \<open>str\<close> values.  They are modelled as \<^typ>\<open>string\<close>, so a character
  is one of the 256 code points of Latin-1; code points above 255 are outside the model.
  On this range the tables below are those of CPython: \<open>str.isspace\<close> and the class \<open>\s\<close> of
  \<open>re\<close> hold at 9..13, 28..32, 133 and 160; \<open>\d\<close> holds at the ten ASCII digits;
  \<open>str.lower\<close> moves A..Z and the accented capitals 192..222 (but not 215) up by 32.
\<close>

definition isspace :: "char \<Rightarrow> bool" where
  "isspace c = (let n = (of_char c :: nat) in (9 \<le> n \<and> n \<le> 13) \<or> (28 \<le> n \<and> n \<le> 32) \<or> n = 133 \<or> n = 160)"

definition isdigit :: "char \<Rightarrow> bool" where
  "isdigit c = (let n = (of_char c :: nat) in 48 \<le> n \<and> n \<le> 57)"

definition lower_char :: "char \<Rightarrow> char" where
  "lower_char c = (let n = (of_char c :: nat) in
     if (65 \<le> n \<and> n \<le> 90) \<or> (192 \<le> n \<and> n \<le> 222 \<and> n \<noteq> 215) then char_of (n + 32) else c)"

text \<open>\<open>s.lower()\<close>\<close>

definition lower :: "string \<Rightarrow> string" where
  "lower s = map lower_char s"

text \<open>\<open>needle in hay\<close> on two strings: some suffix of \<open>hay\<close> starts with \<open>needle\<close>.\<close>

fun str_in :: "string \<Rightarrow> string \<Rightarrow> bool" where
  "str_in needle [] = (needle = [])"
| "str_in needle (c # cs) = (prefix needle (c # cs) \<or> str_in needle cs)"

text \<open>\<open>s.replace(" ", "")\<close>: every blank (code point 32, and only that one) is deleted.\<close>

definition replace_blank_empty :: "string \<Rightarrow> string" where
  "replace_blank_empty s = filter (\<lambda>c. c \<noteq> CHR '' '') s"

text \<open>\<open>s.strip()\<close>: white space is removed from both ends.\<close>

definition strip :: "string \<Rightarrow> string" where
  "strip s = rev (dropWhile isspace (rev (dropWhile isspace s)))"

section \<open>Exceptions\<close>

datatype exn = ValueError | AttributeError | TypeError

text \<open>
  \<open>int(s)\<close> on a string of decimal digits.  CPython refuses a string of more than
  \<open>sys.get_int_max_str_digits()\<close> digits with a ValueError; that bound is the parameter
  \<open>maxd\<close> (4300 unless configured, 0 switches the check off, and the check only looks at strings
  of more than 640 digits).  Leading zeros count.  The source applies \<open>int\<close> only to groups
  matched by \<open>\d+\<close>; a string that is empty or holds another character is a ValueError here.
\<close>

definition digit_val :: "char \<Rightarrow> nat" where
  "digit_val c = of_char c - 48"

definition py_int :: "nat \<Rightarrow> string \<Rightarrow> exn + int" where
  "py_int maxd s =
     (if s = [] \<or> \<not> list_all isdigit s then Inl ValueError
      else if 640 < length s \<and> 0 < maxd \<and> maxd < length s then Inl ValueError
      else Inr (int (foldl (\<lambda>a c. 10 * a + digit_val c) 0 s)))"

section \<open>Regular expressions\<close>

text \<open>
  The three patterns of the source are written in the syntax tree below.  \<open>Star\<close> is the greedy
  \<open>*\<close>, \<open>Lazy\<close> is \<open>*?\<close>, \<open>Group n\<close> is the n-th capturing parenthesis, \<open>Eos\<close> is \<open>$\<close>;
  a non-capturing \<open>(?:...)\<close> is plain nesting.
\<close>

datatype regex =
    Eps
  | Chr char
  | Dot
  | Space
  | Digit
  | Eos
  | Seq regex regex
  | Alt regex regex
  | Star regex
  | Lazy regex
  | Group nat regex

record flags =
  ignorecase :: bool
  dotall :: bool

type_synonym groups = "nat \<Rightarrow> string option"

type_synonym mstate = "groups \<times> string"

definition newline :: char where
  "newline = char_of (10 :: nat)"

definition chr_match :: "flags \<Rightarrow> char \<Rightarrow> char \<Rightarrow> bool" where
  "chr_match fl c x = (if ignorecase fl then lower_char x = lower_char c else x = c)"

definition one_char :: "(char \<Rightarrow> bool) \<Rightarrow> mstate \<Rightarrow> mstate list" where
  "one_char P x = (case snd x of [] \<Rightarrow> [] | y # ys \<Rightarrow> if P y then [(fst x, ys)] else [])"

definition progress :: "mstate \<Rightarrow> mstate \<Rightarrow> bool" where
  "progress x y = (length (snd y) < length (snd x))"

text \<open>
  A backtracking matcher is the list of its successes, in the order in which the engine tries
  them: \<open>ms r fl (gs, s)\<close> lists, for every way \<open>r\<close> matches a front part of \<open>s\<close>, the groups set so
  far and the rest of the input.  A greedy repetition tries one more round before stopping, a
  lazy one stops before it tries one more round.  A round has to consume input; \<open>n\<close> bounds the
  number of rounds by the length of the input.
\<close>

fun star_greedy :: "(mstate \<Rightarrow> mstate list) \<Rightarrow> nat \<Rightarrow> mstate \<Rightarrow> mstate list" where
  "star_greedy f 0 x = [x]"
| "star_greedy f (Suc n) x = concat (map (star_greedy f n) (filter (progress x) (f x))) @ [x]"

fun star_lazy :: "(mstate \<Rightarrow> mstate list) \<Rightarrow> nat \<Rightarrow> mstate \<Rightarrow> mstate list" where
  "star_lazy f 0 x = [x]"
| "star_lazy f (Suc n) x = x # concat (map (star_lazy f n) (filter (progress x) (f x)))"

primrec ms :: "regex \<Rightarrow> flags \<Rightarrow> mstate \<Rightarrow> mstate list" where
  "ms Eps fl x = [x]"
| "ms (Chr c) fl x = one_char (chr_match fl c) x"
| "ms Dot fl x = one_char (\<lambda>y. dotall fl \<or> y \<noteq> newline) x"
| "ms Space fl x = one_char isspace x"
| "ms Digit fl x = one_char isdigit x"
| "ms Eos fl x = (if snd x = [] \<or> snd x = [newline] then [x] else [])"
| "ms (Seq r1 r2) fl x = concat (map (ms r2 fl) (ms r1 fl x))"
| "ms (Alt r1 r2) fl x = ms r1 fl x @ ms r2 fl x"
| "ms (Star r) fl x = star_greedy (ms r fl) (length (snd x)) x"
| "ms (Lazy r) fl x = star_lazy (ms r fl) (length (snd x)) x"
| "ms (Group n r) fl x =
     map (\<lambda>y. ((fst y)(n \<mapsto> take (length (snd x) - length (snd y)) (snd x)), snd y)) (ms r fl x)"

text \<open>
  \<open>re.search(pattern, s, flags)\<close>: the first success at the leftmost position that has one.
  The match object is modelled by its groups; \<open>m.group(n)\<close> is \<open>m n\<close>, \<open>None\<close> for a group that
  took no part in the match.
\<close>

fun re_search :: "regex \<Rightarrow> flags \<Rightarrow> string \<Rightarrow> groups option" where
  "re_search r fl [] = (case ms r fl (Map.empty, []) of [] \<Rightarrow> None | y # _ \<Rightarrow> Some (fst y))"
| "re_search r fl (c # cs) =
     (case ms r fl (Map.empty, c # cs) of [] \<Rightarrow> re_search r fl cs | y # _ \<Rightarrow> Some (fst y))"

text \<open>A literal text, a sequence of parts, and \<open>r+\<close> (one round, then greedily more).\<close>

fun lit :: "string \<Rightarrow> regex" where
  "lit [] = Eps"
| "lit (c # cs) = Seq (Chr c) (lit cs)"

fun seqs :: "regex list \<Rightarrow> regex" where
  "seqs [] = Eps"
| "seqs (r # rs) = Seq r (seqs rs)"

definition Plus :: "regex \<Rightarrow> regex" where
  "Plus r = Seq r (Star r)"

definition flags_I :: flags where
  "flags_I = \<lparr>ignorecase = True, dotall = False\<rparr>"

definition flags_DOTALL :: flags where
  "flags_DOTALL = \<lparr>ignorecase = False, dotall = True\<rparr>"

text \<open>\<^verbatim>\<open>r"Decision:\s*(Hired|Not\s*Hired)\."\<close>\<close>

definition decision_re :: regex where
  "decision_re = seqs [lit ''Decision:'', Star Space,
     Group 1 (Alt (lit ''Hired'') (seqs [lit ''Not'', Star Space, lit ''Hired''])),
     Chr CHR ''.'']"

text \<open>\<^verbatim>\<open>r"Reasons:\s*(.*?)(?:\. Score:|$)"\<close>\<close>

definition reasons_re :: regex where
  "reasons_re = seqs [lit ''Reasons:'', Star Space, Group 1 (Lazy Dot),
     Alt (lit ''. Score:'') Eos]"

text \<open>\<^verbatim>\<open>r"Technical Depth:\s*(\d+)/100,\s*Communication:\s*(\d+)/100,\s*Problem-Solving:\s*(\d+)/100,\s*Total:\s*(\d+)/100"\<close>\<close>

definition scores_re :: regex where
  "scores_re = seqs [lit ''Technical Depth:'', Star Space, Group 1 (Plus Digit), lit ''/100,'',
     Star Space, lit ''Communication:'', Star Space, Group 2 (Plus Digit), lit ''/100,'',
     Star Space, lit ''Problem-Solving:'', Star Space, Group 3 (Plus Digit), lit ''/100,'',
     Star Space, lit ''Total:'', Star Space, Group 4 (Plus Digit), lit ''/100'']"

section \<open>Numbers\<close>

text \<open>
  Python computes the total in binary floating point and rounds it to two decimals.  The model
  computes in exact rationals: \<open>round(x, 2)\<close> is the nearest multiple of 1/100, a tie going to the
  even one.  The weights 0.4, 0.3 and 0.3 are 4/10, 3/10 and 3/10.
\<close>

definition round_half_even :: "rat \<Rightarrow> int" where
  "round_half_even y = (let f = \<lfloor>y\<rfloor>; d = y - of_int f in
     if d < 1 / 2 then f else if 1 / 2 < d then f + 1 else if even f then f else f + 1)"

definition round2 :: "rat \<Rightarrow> rat" where
  "round2 x = of_int (round_half_even (x * 100)) / 100"

definition weighted_total :: "int \<Rightarrow> int \<Rightarrow> int \<Rightarrow> rat" where
  "weighted_total t c p = round2 (of_int t * (4 / 10) + of_int c * (3 / 10) + of_int p * (3 / 10))"

section \<open>The random source\<close>

text \<open>
  The generator of module \<open>random\<close> is global state.  The model passes it explicitly: a state
  is the sequence of raw draws still to come, and \<open>random.randint(lo, hi)\<close> uses up the next one.
  Every call site has \<open>lo \<le> hi\<close>.
\<close>

type_synonym rng = "nat \<Rightarrow> nat"

definition randint :: "int \<Rightarrow> int \<Rightarrow> rng \<Rightarrow> int \<times> rng" where
  "randint lo hi g = (lo + int (g 0 mod nat (hi - lo + 1)), \<lambda>i. g (Suc i))"

section \<open>parse_hiring_decision\<close>

record scores =
  technical_depth :: int
  communication :: int
  problem_solving :: int
  total :: rat

record decision =
  status :: string
  reasons :: string
  scores :: scores

text \<open>
  The block that makes up scores occurs twice in the source with the same text (when the score
  values are invalid and when the score pattern fails): three draws from the band chosen by
  \<open>decision == "hired"\<close>, the total first 0 and then computed from the three.
\<close>

definition fallback_scores :: "string \<Rightarrow> rng \<Rightarrow> scores \<times> rng" where
  "fallback_scores decision g =
     (let (t, g1) = (if decision = ''hired'' then randint 60 85 g else randint 40 65 g);
          (c, g2) = (if decision = ''hired'' then randint 65 90 g1 else randint 45 70 g1);
          (p, g3) = (if decision = ''hired'' then randint 60 85 g2 else randint 40 65 g2);
          sc = \<lparr>technical_depth = t, communication = c, problem_solving = p, total = 0\<rparr>;
          sc = sc\<lparr>total := weighted_total (technical_depth sc) (communication sc)
                                (problem_solving sc)\<rparr>
      in (sc, g3))"

text \<open>The fallback of the exception handler: the low band, whatever the text said.\<close>

definition ultimate_fallback :: "rng \<Rightarrow> decision \<times> rng" where
  "ultimate_fallback g =
     (let decision = ''not hired'';
          (t, g1) = randint 40 65 g;
          (c, g2) = randint 45 70 g1;
          (p, g3) = randint 40 65 g2;
          sc = \<lparr>technical_depth = t, communication = c, problem_solving = p, total = 0\<rparr>;
          sc = sc\<lparr>total := weighted_total (technical_depth sc) (communication sc)
                                (problem_solving sc)\<rparr>
      in (\<lparr>status = decision,
           reasons = ''Unable to parse decision due to malformed response.'',
           scores = sc\<rparr>, g3))"

text \<open>\<open>m.group(n).f()\<close> and \<open>int(m.group(n))\<close>: a group that is \<open>None\<close> raises.\<close>

definition group_str :: "groups \<Rightarrow> nat \<Rightarrow> exn + string" where
  "group_str m n = (case m n of None \<Rightarrow> Inl AttributeError | Some s \<Rightarrow> Inr s)"

definition group_int :: "nat \<Rightarrow> groups \<Rightarrow> nat \<Rightarrow> exn + int" where
  "group_int maxd m n = (case m n of None \<Rightarrow> Inl TypeError | Some s \<Rightarrow> py_int maxd s)"

text \<open>Extract decision status.\<close>

definition extract_status :: "string \<Rightarrow> exn + string" where
  "extract_status result =
     (case re_search decision_re flags_I result of
        Some decision_match \<Rightarrow>
          (case group_str decision_match 1 of
             Inl e \<Rightarrow> Inl e
           | Inr s \<Rightarrow> Inr (replace_blank_empty (lower s)))
      | None \<Rightarrow> Inr (if str_in ''hired'' (lower result) then ''hired'' else ''not hired''))"

text \<open>Extract reasons.\<close>

definition extract_reasons :: "string \<Rightarrow> exn + string" where
  "extract_reasons result =
     (case re_search reasons_re flags_DOTALL result of
        Some reasons_match \<Rightarrow>
          (case group_str reasons_match 1 of Inl e \<Rightarrow> Inl e | Inr s \<Rightarrow> Inr (strip s))
      | None \<Rightarrow> Inr ''No specific reasons provided.'')"

text \<open>The four \<open>int(scores_match.group(k))\<close> of the dictionary display, evaluated in order.\<close>

definition read_scores :: "nat \<Rightarrow> groups \<Rightarrow> exn + scores" where
  "read_scores maxd m =
     (case group_int maxd m 1 of Inl e \<Rightarrow> Inl e | Inr t \<Rightarrow>
      case group_int maxd m 2 of Inl e \<Rightarrow> Inl e | Inr c \<Rightarrow>
      case group_int maxd m 3 of Inl e \<Rightarrow> Inl e | Inr p \<Rightarrow>
      case group_int maxd m 4 of Inl e \<Rightarrow> Inl e | Inr tot \<Rightarrow>
        Inr \<lparr>technical_depth = t, communication = c, problem_solving = p, total = of_int tot\<rparr>)"

text \<open>\<open>all(0 <= score <= 100 for score in scores.values())\<close>\<close>

definition valid_scores :: "scores \<Rightarrow> bool" where
  "valid_scores sc =
     list_all (\<lambda>score. 0 \<le> score \<and> score \<le> 100)
       [of_int (technical_depth sc), of_int (communication sc), of_int (problem_solving sc), total sc]"

text \<open>Extract scores: validate them, recalculate the total, or fall back.\<close>

definition extract_scores :: "nat \<Rightarrow> string \<Rightarrow> string \<Rightarrow> rng \<Rightarrow> (exn + scores) \<times> rng" where
  "extract_scores maxd decision result g =
     (case re_search scores_re flags_I result of
        Some scores_match \<Rightarrow>
          (case read_scores maxd scores_match of
             Inl e \<Rightarrow> (Inl e, g)
           | Inr sc \<Rightarrow>
               if valid_scores sc then
                 (let calculated_total = weighted_total (technical_depth sc)
                        (communication sc) (problem_solving sc)
                  in if \<bar>calculated_total - total sc\<bar> > 1
                     then (Inr (sc\<lparr>total := calculated_total\<rparr>), g)
                     else (Inr sc, g))
               else (let (sc, g') = fallback_scores decision g in (Inr sc, g')))
      | None \<Rightarrow> (let (sc, g') = fallback_scores decision g in (Inr sc, g')))"

text \<open>The body of the \<open>try\<close>: its value is the exception raised or the decision returned.\<close>

definition try_body :: "nat \<Rightarrow> string \<Rightarrow> rng \<Rightarrow> (exn + decision) \<times> rng" where
  "try_body maxd result g =
     (case extract_status result of
        Inl e \<Rightarrow> (Inl e, g)
      | Inr decision \<Rightarrow>
          (case extract_reasons result of
             Inl e \<Rightarrow> (Inl e, g)
           | Inr rsn \<Rightarrow>
               (case extract_scores maxd decision result g of
                  (Inl e, g') \<Rightarrow> (Inl e, g')
                | (Inr sc, g') \<Rightarrow>
                    (Inr \<lparr>status = decision, reasons = rsn, scores = sc\<rparr>, g'))))"

text \<open>
  The value of key \<open>"decision"\<close> of the returned dictionary (\<open>None\<close> when nothing triggers a
  decision), and the state of the random source afterwards.
\<close>

definition parse_hiring_decision :: "nat \<Rightarrow> rng \<Rightarrow> string \<Rightarrow> string \<Rightarrow> decision option \<times> rng" where
  "parse_hiring_decision maxd g result question =
     (if str_in ''hired'' (lower result) \<or> str_in ''not hired'' (lower result)
         \<or> lower question = ''end interview''
      then (case try_body maxd result g of
              (Inr d, g') \<Rightarrow> (Some d, g')
            | (Inl e, g') \<Rightarrow> (let (d, g'') = ultimate_fallback g' in (Some d, g'')))
      else (None, g))"

section \<open>Auxiliary notions for the proofs\<close>

text \<open>\<open>sets k r\<close>: every match of \<open>r\<close> goes through a \<open>Group k\<close>.\<close>

fun sets :: "nat \<Rightarrow> regex \<Rightarrow> bool" where
  "sets k (Group n r) = (n = k \<or> sets k r)"
| "sets k (Seq r1 r2) = (sets k r1 \<or> sets k r2)"
| "sets k (Alt r1 r2) = (sets k r1 \<and> sets k r2)"
| "sets k r = False"

text \<open>\<open>ext x y\<close>: from \<open>x\<close> to \<open>y\<close> input was consumed and no group was lost.\<close>

definition ext :: "mstate \<Rightarrow> mstate \<Rightarrow> bool" where
  "ext x y = (dom (fst x) \<subseteq> dom (fst y) \<and> suffix (snd y) (snd x))"

text \<open>What the score pattern and the four \<open>int\<close> conversions give on a text.\<close>

definition scores_found :: "nat \<Rightarrow> string \<Rightarrow> (exn + scores) option" where
  "scores_found maxd result = map_option (read_scores maxd) (re_search scores_re flags_I result)"

text \<open>The total recalculated from the three sub-scores of a score record.\<close>

definition calculated_total :: "scores \<Rightarrow> rat" where
  "calculated_total sc =
     weighted_total (technical_depth sc) (communication sc) (problem_solving sc)"

text \<open>The condition of the outer \<open>if\<close>.\<close>

definition triggered :: "string \<Rightarrow> string \<Rightarrow> bool" where
  "triggered result question =
     (str_in ''hired'' (lower result) \<or> str_in ''not hired'' (lower result)
      \<or> lower question = ''end interview'')"

text \<open>The band of the fallback scores that belongs to a status.\<close>

definition in_band :: "string \<Rightarrow> scores \<Rightarrow> bool" where
  "in_band st sc =
     (if st = ''hired''
      then 60 \<le> technical_depth sc \<and> technical_depth sc \<le> 85
         \<and> 65 \<le> communication sc \<and> communication sc \<le> 90
         \<and> 60 \<le> problem_solving sc \<and> problem_solving sc \<le> 85
      else 40 \<le> technical_depth sc \<and> technical_depth sc \<le> 65
         \<and> 45 \<le> communication sc \<and> communication sc \<le> 70
         \<and> 40 \<le> problem_solving sc \<and> problem_solving sc \<le> 65)"

text \<open>Scores are made up: no score block, a conversion that raises, or a value out of range.\<close>

definition must_synthesize :: "nat \<Rightarrow> string \<Rightarrow> bool" where
  "must_synthesize maxd result =
     (case scores_found maxd result of
        None \<Rightarrow> True
      | Some (Inl e) \<Rightarrow> True
      | Some (Inr sc) \<Rightarrow> \<not> valid_scores sc)"

section \<open>Example texts\<close>

text \<open>The example of the specification, and the same text with the total 95.\<close>

definition spec_example :: string where
  "spec_example = ''Decision: Hired. Reasons: Strong system design skills. Score: Technical Depth: 80/100, Communication: 70/100, Problem-Solving: 75/100, Total: 76/100.''"

definition spec_example_95 :: string where
  "spec_example_95 = ''Decision: Hired. Reasons: Strong system design skills. Score: Technical Depth: 80/100, Communication: 70/100, Problem-Solving: 75/100, Total: 95/100.''"

text \<open>A verdict in free words, without the pattern of a decision.\<close>

definition weak_text :: string where
  "weak_text = ''not hired, weak answers''"

text \<open>A verdict in the documented format that gives neither reasons nor scores.\<close>

definition bare_verdict :: string where
  "bare_verdict = ''Decision: Not Hired.''"

text \<open>A score above 100.\<close>

definition out_of_range_text :: string where
  "out_of_range_text = ''Decision: Hired. Reasons: ok. Score: Technical Depth: 180/100, Communication: 70/100, Problem-Solving: 75/100, Total: 76/100.''"

text \<open>The label of the reasons in small letters.\<close>

definition lower_label_text :: string where
  "lower_label_text = ''Decision: Hired. reasons: strong answers.''"

text \<open>A score of \<open>n\<close> digits, followed by reasons under a label in small letters.\<close>

definition long_score_text :: "nat \<Rightarrow> string" where
  "long_score_text n = ''Technical Depth: '' @ replicate n CHR ''1''
     @ ''/100, Communication: 70/100, Problem-Solving: 75/100, Total: 76/100. reasons: weak''"

section \<open>Strings, numbers and the random source\<close>

lemma str_in_iff: "str_in xs ys \<longleftrightarrow> sublist xs ys"
  by (induction ys) (auto simp: sublist_Cons_right)

lemma str_in_append: "str_in (a @ b) s \<Longrightarrow> str_in b s"
proof -
  assume "str_in (a @ b) s"
  then obtain ps ss where "s = ps @ (a @ b) @ ss" unfolding str_in_iff sublist_def by blast
  then have "s = (ps @ a) @ b @ ss" by simp
  then show ?thesis unfolding str_in_iff sublist_def by blast
qed

lemma not_hired_in: "str_in ''not hired'' s \<Longrightarrow> str_in ''hired'' s"
  using str_in_append [of "''not ''" "''hired''" s] by simp

lemma round_half_even_of_int: "round_half_even (of_int k) = k"
  by (simp add: round_half_even_def)

lemma round2_tenth: "round2 (of_int k / 10) = of_int k / 10"
proof -
  have "(of_int k / 10 :: rat) * 100 = of_int (10 * k)" by simp
  then show ?thesis unfolding round2_def by (simp only: round_half_even_of_int) 
qed

lemma weighted_total_eq: "weighted_total t c p = of_int (4 * t + 3 * c + 3 * p) / 10"
proof -
  have "(of_int t * (4 / 10) + of_int c * (3 / 10) + of_int p * (3 / 10) :: rat) = of_int (4 * t + 3 * c + 3 * p) / 10"
    by simp
  then show ?thesis unfolding weighted_total_def by (simp only: round2_tenth)
qed

lemma weighted_total_bounds:
  assumes "0 \<le> t" "t \<le> 100" "0 \<le> c" "c \<le> 100" "0 \<le> p" "p \<le> 100"
  shows "0 \<le> weighted_total t c p \<and> weighted_total t c p \<le> 100"
proof -
  have "0 \<le> 4 * t + 3 * c + 3 * p" "4 * t + 3 * c + 3 * p \<le> 1000" using assms by linarith+
  then have "(0::rat) \<le> of_int (4 * t + 3 * c + 3 * p)"
    and "(of_int (4 * t + 3 * c + 3 * p) :: rat) \<le> of_int 1000"
    by (simp_all only: of_int_0_le_iff of_int_le_iff)
  then show ?thesis unfolding weighted_total_eq by simp
qed

lemma randint_range: "lo \<le> hi \<Longrightarrow> lo \<le> fst (randint lo hi g) \<and> fst (randint lo hi g) \<le> hi"
proof -
  assume h: "lo \<le> hi"
  then have "0 < nat (hi - lo + 1)" by simp
  then have "g 0 mod nat (hi - lo + 1) < nat (hi - lo + 1)" by (rule mod_less_divisor)
  then have "int (g 0 mod nat (hi - lo + 1)) < hi - lo + 1" using h by linarith
  then show ?thesis unfolding randint_def by simp
qed

lemma randint_onto: "lo \<le> v \<Longrightarrow> v \<le> hi \<Longrightarrow> fst (randint lo hi (\<lambda>_. nat (v - lo))) = v"
  unfolding randint_def by simp

section \<open>The matcher\<close>

lemma one_char_elem: "y \<in> set (one_char P x) \<Longrightarrow> fst y = fst x \<and> (\<exists>c. snd x = c # snd y \<and> P c)"
proof -
  assume a: "y \<in> set (one_char P x)"
  show ?thesis
  proof (cases "snd x")
    case Nil
    then show ?thesis using a by (simp add: one_char_def)
  next
    case (Cons c cs)
    then show ?thesis using a by (cases "P c") (simp_all add: one_char_def)
  qed
qed

lemma star_greedy_rel:
  assumes step: "\<And>x y. y \<in> set (f x) \<Longrightarrow> R x y"
    and refl: "\<And>x. R x x"
    and trans: "\<And>x y z. R x y \<Longrightarrow> R y z \<Longrightarrow> R x z"
  shows "y \<in> set (star_greedy f n x) \<Longrightarrow> R x y"
proof (induction n arbitrary: x)
  case 0
  then show ?case by (simp add: refl)
next
  case (Suc n)
  from Suc.prems consider "y = x" | z where "z \<in> set (f x)" "y \<in> set (star_greedy f n z)"
    by auto
  then show ?case
  proof cases
    case 1
    then show ?thesis by (simp add: refl)
  next
    case 2
    then show ?thesis using Suc.IH step trans by blast
  qed
qed

lemma star_lazy_rel:
  assumes step: "\<And>x y. y \<in> set (f x) \<Longrightarrow> R x y"
    and refl: "\<And>x. R x x"
    and trans: "\<And>x y z. R x y \<Longrightarrow> R y z \<Longrightarrow> R x z"
  shows "y \<in> set (star_lazy f n x) \<Longrightarrow> R x y"
proof (induction n arbitrary: x)
  case 0
  then show ?case by (simp add: refl)
next
  case (Suc n)
  from Suc.prems consider "y = x" | z where "z \<in> set (f x)" "y \<in> set (star_lazy f n z)"
    by auto
  then show ?case
  proof cases
    case 1
    then show ?thesis by (simp add: refl)
  next
    case 2
    then show ?thesis using Suc.IH step trans by blast
  qed
qed

lemma ext_refl: "ext x x"
  unfolding ext_def by simp

lemma ext_trans: "ext x y \<Longrightarrow> ext y z \<Longrightarrow> ext x z"
proof -
  assume a: "ext x y" and b: "ext y z"
  obtain u where u: "snd x = u @ snd y" using a unfolding ext_def suffix_def by blast
  obtain v where v: "snd y = v @ snd z" using b unfolding ext_def suffix_def by blast
  have "snd x = (u @ v) @ snd z" using u v by simp
  then have "suffix (snd z) (snd x)" unfolding suffix_def by blast
  moreover have "dom (fst x) \<subseteq> dom (fst z)" using a b unfolding ext_def by blast
  ultimately show ?thesis unfolding ext_def by simp
qed

lemma ms_ext: "y \<in> set (ms r fl x) \<Longrightarrow> ext x y"
proof (induction r arbitrary: x y)
  case (Seq r1 r2)
  then obtain z where "z \<in> set (ms r1 fl x)" "y \<in> set (ms r2 fl z)" by auto
  then show ?case using Seq.IH ext_trans by blast
next
  case (Star r)
  then show ?case using star_greedy_rel [of "ms r fl" ext, OF _ ext_refl ext_trans] by simp
next
  case (Lazy r)
  then show ?case using star_lazy_rel [of "ms r fl" ext, OF _ ext_refl ext_trans] by simp
next
  case (Group n r)
  then obtain z where z: "z \<in> set (ms r fl x)" "y = ((fst z)(n \<mapsto> take (length (snd x) - length (snd z)) (snd x)), snd z)"
    by auto
  then have "ext x z" using Group.IH by blast
  then show ?case using z unfolding ext_def by auto
next
  case (Alt r1 r2)
  then have "y \<in> set (ms r1 fl x) \<or> y \<in> set (ms r2 fl x)" by simp
  then show ?case using Alt.IH by blast
next
  case Eps
  then show ?case by (simp add: ext_refl)
next
  case (Chr c)
  then show ?case using one_char_elem [of y "chr_match fl c" x] by (auto simp: ext_def suffix_def)
next
  case Dot
  then show ?case using one_char_elem [of y "\<lambda>y. dotall fl \<or> y \<noteq> newline" x]
    by (auto simp: ext_def suffix_def)
next
  case Space
  then show ?case using one_char_elem [of y isspace x] by (auto simp: ext_def suffix_def)
next
  case Digit
  then show ?case using one_char_elem [of y isdigit x] by (auto simp: ext_def suffix_def)
next
  case Eos
  then show ?case by (auto simp: ext_refl split: if_splits)
qed

lemma ms_sets: "sets k r \<Longrightarrow> y \<in> set (ms r fl x) \<Longrightarrow> k \<in> dom (fst y)"
proof (induction r arbitrary: x y)
  case (Seq r1 r2)
  then obtain z where z: "z \<in> set (ms r1 fl x)" "y \<in> set (ms r2 fl z)" by auto
  show ?case
  proof (cases "sets k r1")
    case True
    then have "k \<in> dom (fst z)" using Seq.IH(1) z(1) by blast
    then show ?thesis using ms_ext [OF z(2)] unfolding ext_def by blast
  next
    case False
    then have "sets k r2" using Seq.prems(1) by simp
    then show ?thesis using Seq.IH(2) z(2) by blast
  qed
next
  case (Alt r1 r2)
  then have "y \<in> set (ms r1 fl x) \<or> y \<in> set (ms r2 fl x)" and "sets k r1" and "sets k r2" by simp_all
  then show ?case using Alt.IH by blast
next
  case (Group n r)
  then obtain z where z: "z \<in> set (ms r fl x)" "y = ((fst z)(n \<mapsto> take (length (snd x) - length (snd z)) (snd x)), snd z)"
    by auto
  show ?case
  proof (cases "n = k")
    case True
    then show ?thesis using z(2) by (simp add: dom_def)
  next
    case False
    then have "sets k r" using Group.prems(1) by simp
    then have "k \<in> dom (fst z)" using Group.IH z(1) by blast
    then show ?thesis using z by auto
  qed
qed simp_all

lemma re_search_Some:
  "re_search r fl s = Some m \<Longrightarrow> \<exists>t y. suffix t s \<and> y \<in> set (ms r fl (Map.empty, t)) \<and> fst y = m"
proof (induction s)
  case Nil
  show ?case
  proof (cases "ms r fl (Map.empty, [])")
    case Nil
    then show ?thesis using Nil.prems by simp
  next
    case hit: (Cons y ys)
    then have "fst y = m" using Nil.prems by simp
    moreover have "y \<in> set (ms r fl (Map.empty, []))" using hit by simp
    moreover have "suffix ([] :: string) []" by simp
    ultimately show ?thesis by blast
  qed
next
  case step: (Cons c cs)
  show ?case
  proof (cases "ms r fl (Map.empty, c # cs)")
    case Nil
    then have "re_search r fl cs = Some m" using step.prems by simp
    then obtain t y where t: "suffix t cs" and y: "y \<in> set (ms r fl (Map.empty, t))" "fst y = m"
      using step.IH by blast
    have "suffix t (c # cs)" using t by (rule suffix_ConsI)
    then show ?thesis using y by blast
  next
    case hit: (Cons y ys)
    then have "fst y = m" using step.prems by simp
    moreover have "y \<in> set (ms r fl (Map.empty, c # cs))" using hit by simp
    moreover have "suffix (c # cs) (c # cs)" by simp
    ultimately show ?thesis by blast
  qed
qed

lemma re_search_sets: "sets k r \<Longrightarrow> re_search r fl s = Some m \<Longrightarrow> \<exists>w. m k = Some w"
proof -
  assume a: "sets k r" and "re_search r fl s = Some m"
  then obtain t y where "y \<in> set (ms r fl (Map.empty, t))" "fst y = m"
    using re_search_Some by blast
  then have "k \<in> dom m" using ms_sets [OF a] by blast
  then show ?thesis by blast
qed

lemma sets_decision_re: "sets 1 decision_re"
  unfolding decision_re_def by simp

lemma sets_reasons_re: "sets 1 reasons_re"
  unfolding reasons_re_def by simp

lemma sets_scores_re: "sets 1 scores_re \<and> sets 2 scores_re \<and> sets 3 scores_re \<and> sets 4 scores_re"
  unfolding scores_re_def by simp

lemma extract_status_Inr: "\<exists>st. extract_status result = Inr st"
proof (cases "re_search decision_re flags_I result")
  case None
  then show ?thesis unfolding extract_status_def by simp
next
  case (Some m)
  then obtain w where "m 1 = Some w" using re_search_sets [OF sets_decision_re] by blast
  then show ?thesis unfolding extract_status_def group_str_def using Some by simp
qed

lemma extract_reasons_Inr: "\<exists>rsn. extract_reasons result = Inr rsn"
proof (cases "re_search reasons_re flags_DOTALL result")
  case None
  then show ?thesis unfolding extract_reasons_def by simp
next
  case (Some m)
  then obtain w where "m 1 = Some w" using re_search_sets [OF sets_reasons_re] by blast
  then show ?thesis unfolding extract_reasons_def group_str_def using Some by simp
qed

lemma ms_lit_exact: "\<not> ignorecase fl \<Longrightarrow> y \<in> set (ms (lit p) fl x) \<Longrightarrow> snd x = p @ snd y"
proof (induction p arbitrary: x)
  case Nil
  then show ?case by simp
next
  case (Cons c p)
  then obtain z where z: "z \<in> set (one_char (chr_match fl c) x)" "y \<in> set (ms (lit p) fl z)" by auto
  then have "snd x = c # snd z" using one_char_elem [OF z(1)] Cons.prems(1) by (auto simp: chr_match_def)
  then show ?case using Cons.IH [OF Cons.prems(1) z(2)] by simp
qed

lemma re_search_lit_in:
  "\<not> ignorecase fl \<Longrightarrow> re_search (Seq (lit p) r) fl s = Some m \<Longrightarrow> str_in p s"
proof -
  assume cs: "\<not> ignorecase fl" and "re_search (Seq (lit p) r) fl s = Some m"
  then obtain t y where t: "suffix t s" "y \<in> set (ms (Seq (lit p) r) fl (Map.empty, t))"
    using re_search_Some by blast
  then obtain z where "z \<in> set (ms (lit p) fl (Map.empty, t))" by auto
  then have "snd (Map.empty :: groups, t) = p @ snd z" by (rule ms_lit_exact [OF cs])
  then have "t = p @ snd z" by simp
  moreover obtain u where "s = u @ t" using t(1) unfolding suffix_def by blast
  ultimately have "s = u @ p @ snd z" by simp
  then show ?thesis unfolding str_in_iff sublist_def by blast
qed

lemma reasons_label_needed:
  "\<not> str_in ''Reasons:'' result \<Longrightarrow> extract_reasons result = Inr ''No specific reasons provided.''"
proof -
  assume h: "\<not> str_in ''Reasons:'' result"
  define rest where "rest = seqs [Star Space, Group 1 (Lazy Dot), Alt (lit ''. Score:'') Eos]"
  have eq: "reasons_re = Seq (lit ''Reasons:'') rest"
    unfolding reasons_re_def rest_def by (simp only: seqs.simps)
  have nic: "\<not> ignorecase flags_DOTALL" by (simp add: flags_DOTALL_def)
  have "re_search reasons_re flags_DOTALL result = None"
  proof (cases "re_search reasons_re flags_DOTALL result")
    case None
    then show ?thesis .
  next
    case (Some m)
    then have "re_search (Seq (lit ''Reasons:'') rest) flags_DOTALL result = Some m"
      by (simp only: eq)
    then have "str_in ''Reasons:'' result" by (rule re_search_lit_in [OF nic])
    then show ?thesis using h by blast
  qed
  then show ?thesis unfolding extract_reasons_def by (simp only: option.case)
qed

section \<open>The shape of a decision\<close>

lemma randint_in: "lo \<le> hi \<Longrightarrow> randint lo hi g = (v, g') \<Longrightarrow> lo \<le> v \<and> v \<le> hi"
  using randint_range [of lo hi g] by simp

lemma fallback_scores_band: "in_band d (fst (fallback_scores d g))"
proof (cases "d = ''hired''")
  case True
  obtain t g1 where t: "randint 60 85 g = (t, g1)" by (cases "randint 60 85 g")
  obtain c g2 where c: "randint 65 90 g1 = (c, g2)" by (cases "randint 65 90 g1")
  obtain p g3 where p: "randint 60 85 g2 = (p, g3)" by (cases "randint 60 85 g2")
  have "60 \<le> t \<and> t \<le> 85" "65 \<le> c \<and> c \<le> 90" "60 \<le> p \<and> p \<le> 85"
    using randint_in [OF _ t] randint_in [OF _ c] randint_in [OF _ p] by simp_all
  then show ?thesis using True t c p by (simp add: fallback_scores_def in_band_def)
next
  case False
  obtain t g1 where t: "randint 40 65 g = (t, g1)" by (cases "randint 40 65 g")
  obtain c g2 where c: "randint 45 70 g1 = (c, g2)" by (cases "randint 45 70 g1")
  obtain p g3 where p: "randint 40 65 g2 = (p, g3)" by (cases "randint 40 65 g2")
  have "40 \<le> t \<and> t \<le> 65" "45 \<le> c \<and> c \<le> 70" "40 \<le> p \<and> p \<le> 65"
    using randint_in [OF _ t] randint_in [OF _ c] randint_in [OF _ p] by simp_all
  then show ?thesis using False t c p by (simp add: fallback_scores_def in_band_def)
qed

lemma fallback_scores_total:
  "total (fst (fallback_scores d g)) = calculated_total (fst (fallback_scores d g))"
  by (simp add: fallback_scores_def calculated_total_def Let_def split: prod.splits)

lemma ultimate_fallback_fields:
  "status (fst (ultimate_fallback g)) = ''not hired''"
  "reasons (fst (ultimate_fallback g)) = ''Unable to parse decision due to malformed response.''"
  "total (scores (fst (ultimate_fallback g))) = calculated_total (scores (fst (ultimate_fallback g)))"
  by (simp_all add: ultimate_fallback_def calculated_total_def Let_def split: prod.splits)

lemma ultimate_fallback_band:
  "in_band ''not hired'' (scores (fst (ultimate_fallback g)))"
proof -
  obtain t g1 where t: "randint 40 65 g = (t, g1)" by (cases "randint 40 65 g")
  obtain c g2 where c: "randint 45 70 g1 = (c, g2)" by (cases "randint 45 70 g1")
  obtain p g3 where p: "randint 40 65 g2 = (p, g3)" by (cases "randint 40 65 g2")
  have "40 \<le> t \<and> t \<le> 65" "45 \<le> c \<and> c \<le> 70" "40 \<le> p \<and> p \<le> 65"
    using randint_in [OF _ t] randint_in [OF _ c] randint_in [OF _ p] by simp_all
  then show ?thesis using t c p by (simp add: ultimate_fallback_def in_band_def)
qed

lemma extract_scores_alt:
  "extract_scores maxd d result g =
     (case scores_found maxd result of
        None \<Rightarrow> (Inr (fst (fallback_scores d g)), snd (fallback_scores d g))
      | Some (Inl e) \<Rightarrow> (Inl e, g)
      | Some (Inr sc) \<Rightarrow>
          if valid_scores sc
          then (Inr (if 1 < \<bar>calculated_total sc - total sc\<bar>
                     then sc\<lparr>total := calculated_total sc\<rparr> else sc), g)
          else (Inr (fst (fallback_scores d g)), snd (fallback_scores d g)))"
  by (simp add: extract_scores_def scores_found_def calculated_total_def Let_def
      split: option.splits sum.splits prod.splits)

lemma try_body_eq:
  assumes "extract_status result = Inr st" and "extract_reasons result = Inr rsn"
  shows "try_body maxd result g =
     (case extract_scores maxd st result g of
        (Inl e, g') \<Rightarrow> (Inl e, g')
      | (Inr sc, g') \<Rightarrow> (Inr \<lparr>status = st, reasons = rsn, scores = sc\<rparr>, g'))"
  unfolding try_body_def using assms by simp

lemma parse_untriggered:
  "\<not> triggered result question \<Longrightarrow> parse_hiring_decision maxd g result question = (None, g)"
  unfolding parse_hiring_decision_def triggered_def by simp

lemma parse_triggered:
  assumes trig: "triggered result question"
    and st: "extract_status result = Inr st"
    and rsn: "extract_reasons result = Inr rsn"
  shows "fst (parse_hiring_decision maxd g result question) =
     (case scores_found maxd result of
        None \<Rightarrow> Some \<lparr>status = st, reasons = rsn, scores = fst (fallback_scores st g)\<rparr>
      | Some (Inl e) \<Rightarrow> Some (fst (ultimate_fallback g))
      | Some (Inr sc) \<Rightarrow>
          if valid_scores sc
          then Some \<lparr>status = st, reasons = rsn,
                     scores = (if 1 < \<bar>calculated_total sc - total sc\<bar>
                               then sc\<lparr>total := calculated_total sc\<rparr> else sc)\<rparr>
          else Some \<lparr>status = st, reasons = rsn, scores = fst (fallback_scores st g)\<rparr>)"
proof -
  have "parse_hiring_decision maxd g result question =
      (case try_body maxd result g of
         (Inr d, g') \<Rightarrow> (Some d, g')
       | (Inl e, g') \<Rightarrow> (let (d, g'') = ultimate_fallback g' in (Some d, g'')))"
    using trig unfolding parse_hiring_decision_def triggered_def by simp
  then show ?thesis
    unfolding try_body_eq [OF st rsn] extract_scores_alt
    by (simp add: Let_def split: option.splits sum.splits prod.splits)
qed

section \<open>The claims\<close>

text \<open>
  C3: when the text does not contain "hired" in any letter case and the question is not
  "end interview" in any letter case, the result is the explicit no-decision value, and the
  random source is left untouched.
\<close>

theorem no_trigger_no_decision:
  assumes "\<not> str_in ''hired'' (lower result)"
    and "lower question \<noteq> ''end interview''"
  shows "parse_hiring_decision maxd g result question = (None, g)"
proof -
  have "\<not> str_in ''not hired'' (lower result)" using assms(1) not_hired_in by blast
  then have "\<not> triggered result question" using assms unfolding triggered_def by simp
  then show ?thesis by (rule parse_untriggered)
qed

theorem no_trigger_no_decision_witness:
  "\<not> str_in ''hired'' (lower ''Tell me about your last project.'')
   \<and> lower ''I built a cache'' \<noteq> ''end interview''
   \<and> fst (parse_hiring_decision 4300 (\<lambda>_. 0) ''Tell me about your last project.'' ''I built a cache'') = None"
proof -
  have a: "\<not> str_in ''hired'' (lower ''Tell me about your last project.'')" by code_simp
  have b: "lower ''I built a cache'' \<noteq> ''end interview''" by code_simp
  show ?thesis using a b no_trigger_no_decision [OF a b, of 4300 "\<lambda>_. 0"] by simp
qed

end
